theory Spec2Isabelle
  imports Complex_Main
begin

section \<open>Numbers\<close>

text \<open>
  A number of the program is an IEEE 754 double: not-a-number, an infinity, or a finite
  real. The two zeros are one value here: the code neither divides by a counter value
  nor compares with \<open>Object.is\<close>, so nothing in it tells them apart. An arithmetic
  result is rounded to the nearest double, ties to the even significand
  (\<open>to_double\<close>): \<open>quantum x\<close> is the spacing of the doubles around \<open>x\<close>, with 53
  significant bits down to the subnormal spacing, and a result of magnitude
  \<open>2 ^ 1024\<close> or more is an infinity. The doubles among the finite numbers are the
  reals that \<open>to_double\<close> leaves as they are; every result of an operation is one.
\<close>

datatype number = NaN | NegInf | Finite real | PosInf

definition round_half_even :: "real \<Rightarrow> int" where
  "round_half_even x =
     (let f = \<lfloor>x\<rfloor>; d = x - of_int f in
      if d < 1/2 then f else if 1/2 < d then f + 1 else if even f then f else f + 1)"

definition quantum :: "real \<Rightarrow> real" where
  "quantum x = 2 powr of_int (max \<lfloor>log 2 \<bar>x\<bar>\<rfloor> (-1022) - 52)"

definition to_double :: "real \<Rightarrow> number" where
  "to_double x =
     (if x = 0 then Finite 0
      else (let y = of_int (round_half_even (x / quantum x)) * quantum x in
            if 2 ^ 1024 \<le> y then PosInf
            else if y \<le> - (2 ^ 1024) then NegInf
            else Finite y))"

text \<open>The operators the counter uses: \<open>+\<close>, \<open>-\<close>, the comparisons, \<open>Math.max\<close>, \<open>Math.min\<close>.\<close>

fun js_add :: "number \<Rightarrow> number \<Rightarrow> number" where
  "js_add (Finite x) (Finite y) = to_double (x + y)"
| "js_add NaN b = NaN"
| "js_add a NaN = NaN"
| "js_add PosInf NegInf = NaN"
| "js_add NegInf PosInf = NaN"
| "js_add PosInf b = PosInf"
| "js_add a PosInf = PosInf"
| "js_add NegInf b = NegInf"
| "js_add a NegInf = NegInf"

fun js_neg :: "number \<Rightarrow> number" where
  "js_neg NaN = NaN"
| "js_neg NegInf = PosInf"
| "js_neg (Finite x) = Finite (- x)"
| "js_neg PosInf = NegInf"

definition js_sub :: "number \<Rightarrow> number \<Rightarrow> number" where
  "js_sub a b = js_add a (js_neg b)"

fun js_lt :: "number \<Rightarrow> number \<Rightarrow> bool" where
  "js_lt (Finite x) (Finite y) = (x < y)"
| "js_lt NaN b = False"
| "js_lt a NaN = False"
| "js_lt PosInf b = False"
| "js_lt a NegInf = False"
| "js_lt NegInf b = True"
| "js_lt a PosInf = True"

fun js_le :: "number \<Rightarrow> number \<Rightarrow> bool" where
  "js_le (Finite x) (Finite y) = (x \<le> y)"
| "js_le NaN b = False"
| "js_le a NaN = False"
| "js_le NegInf b = True"
| "js_le a PosInf = True"
| "js_le PosInf b = False"
| "js_le a NegInf = False"

definition js_gt :: "number \<Rightarrow> number \<Rightarrow> bool" where
  "js_gt a b = js_lt b a"

definition js_ge :: "number \<Rightarrow> number \<Rightarrow> bool" where
  "js_ge a b = js_le b a"

definition Math_max :: "number \<Rightarrow> number \<Rightarrow> number" where
  "Math_max a b = (if a = NaN \<or> b = NaN then NaN else if js_lt a b then b else a)"

definition Math_min :: "number \<Rightarrow> number \<Rightarrow> number" where
  "Math_min a b = (if a = NaN \<or> b = NaN then NaN else if js_lt b a then b else a)"

section \<open>Counter types (src/types/index.ts)\<close>

text \<open>
  \<open>CounterActionType\<close> is a const object whose members are string literals, and the
  reducer switches on the string an action carries at run time. The action kind is
  therefore a string, so that an action whose kind is none of the four members can be
  written down.
\<close>

type_synonym CounterActionType = string

definition INCREMENT :: CounterActionType where
  "INCREMENT = ''INCREMENT''"

definition DECREMENT :: CounterActionType where
  "DECREMENT = ''DECREMENT''"

definition RESET :: CounterActionType where
  "RESET = ''RESET''"

definition SET_VALUE :: CounterActionType where
  "SET_VALUE = ''SET_VALUE''"

text \<open>
  A history entry. The field \<open>id\<close> of the source is \<open>entry_id\<close> here (\<open>id\<close> is the
  identity function of HOL); dates are integers (milliseconds).
\<close>

record CounterHistoryEntry =
  entry_id :: string
  action :: CounterActionType
  previousValue :: number
  newValue :: number
  timestamp :: int
  createdAt :: int
  updatedAt :: int

record CounterState =
  "value" :: number
  isLoading :: bool
  error :: "string option"
  history :: "CounterHistoryEntry list"

record CounterConfig =
  initialValue :: number
  minValue :: number
  maxValue :: number
  step :: number
  enableHistory :: bool
  enablePersistence :: bool

section \<open>The counter reducer (src/hooks/index.ts)\<close>

text \<open>The action of the reducer: \<open>payload\<close> is optional in the source.\<close>

record CounterAction =
  type :: CounterActionType
  payload :: "number option"

text \<open>
  \<open>createHistoryEntry\<close> reads the ambient UUID generator once and the clock three
  times. What these calls return during one dispatch is the \<open>ambient\<close> argument.
\<close>

record ambient =
  randomUUID :: string
  now_timestamp :: int
  now_createdAt :: int
  now_updatedAt :: int

definition createHistoryEntry ::
  "ambient \<Rightarrow> CounterActionType \<Rightarrow> number \<Rightarrow> number \<Rightarrow> CounterHistoryEntry" where
  "createHistoryEntry amb actionType prev new =
     \<lparr>entry_id = randomUUID amb,
      action = actionType,
      previousValue = prev,
      newValue = new,
      timestamp = now_timestamp amb,
      createdAt = now_createdAt amb,
      updatedAt = now_updatedAt amb\<rparr>"

definition counterReducer :: "ambient \<Rightarrow> CounterState \<Rightarrow> CounterAction \<Rightarrow> CounterState" where
  "counterReducer amb state act =
     (if type act = INCREMENT then
        (let incrementedValue = js_add (value state) (Finite 1) in
         state\<lparr>value := incrementedValue,
               history := history state @
                 [createHistoryEntry amb INCREMENT (value state) incrementedValue]\<rparr>)
      else if type act = DECREMENT then
        (let decrementedValue = Math_max (Finite 0) (js_sub (value state) (Finite 1)) in
         state\<lparr>value := decrementedValue,
               history := history state @
                 [createHistoryEntry amb DECREMENT (value state) decrementedValue]\<rparr>)
      else if type act = RESET then
        state\<lparr>value := Finite 0,
              history := history state @
                [createHistoryEntry amb RESET (value state) (Finite 0)]\<rparr>
      else if type act = SET_VALUE then
        (let newVal = (case payload act of None \<Rightarrow> Finite 0 | Some p \<Rightarrow> p) in
         state\<lparr>value := newVal,
               history := history state @
                 [createHistoryEntry amb SET_VALUE (value state) newVal]\<rparr>)
      else state)"

definition recognized :: "CounterActionType set" where
  "recognized = {INCREMENT, DECREMENT, RESET, SET_VALUE}"

subsection \<open>The reducer on references\<close>

text \<open>
  Each of the four \<open>case\<close> blocks of the reducer returns an object literal, that is a
  newly allocated object; the \<open>default\<close> branch returns its parameter \<open>state\<close>, the
  reference it was given. The store maps references to state objects, and
  \<open>counterReducer_ref\<close> is the reducer read at this level: \<open>None\<close> is a dangling
  reference, which the source cannot be given.
\<close>

type_synonym ref = nat

record store =
  objects :: "ref \<rightharpoonup> CounterState"
  next_ref :: ref

definition alloc :: "CounterState \<Rightarrow> store \<Rightarrow> ref \<times> store" where
  "alloc obj h =
     (next_ref h, h\<lparr>objects := (objects h)(next_ref h \<mapsto> obj), next_ref := Suc (next_ref h)\<rparr>)"

definition counterReducer_ref ::
  "ambient \<Rightarrow> store \<Rightarrow> ref \<Rightarrow> CounterAction \<Rightarrow> (ref \<times> store) option" where
  "counterReducer_ref amb h r act =
     (case objects h r of
        None \<Rightarrow> None
      | Some state \<Rightarrow>
          if type act = INCREMENT \<or> type act = DECREMENT \<or> type act = RESET
             \<or> type act = SET_VALUE
          then Some (alloc (counterReducer amb state act) h)
          else Some (r, h))"

definition store_ok :: "store \<Rightarrow> bool" where
  "store_ok h = (\<forall>r. objects h r \<noteq> None \<longrightarrow> r < next_ref h)"

section \<open>The counter hook (src/hooks/index.ts)\<close>

definition MAX_SAFE_INTEGER :: number where
  "MAX_SAFE_INTEGER = Finite 9007199254740991"

definition defaultConfig :: CounterConfig where
  "defaultConfig =
     \<lparr>initialValue = Finite 0, minValue = Finite 0, maxValue = MAX_SAFE_INTEGER,
      step = Finite 1, enableHistory = True, enablePersistence = False\<rparr>"

text \<open>
  \<open>Partial<CounterConfig>\<close>: every key may be absent. The spread
  \<open>{ ...defaultConfig, ...initialConfig }\<close> takes a key from \<open>initialConfig\<close> when it
  is there and from the defaults otherwise.
\<close>

record PartialCounterConfig =
  p_initialValue :: "number option"
  p_minValue :: "number option"
  p_maxValue :: "number option"
  p_step :: "number option"
  p_enableHistory :: "bool option"
  p_enablePersistence :: "bool option"

definition or_default :: "'a option \<Rightarrow> 'a \<Rightarrow> 'a" where
  "or_default x d = (case x of None \<Rightarrow> d | Some v \<Rightarrow> v)"

definition config :: "PartialCounterConfig \<Rightarrow> CounterConfig" where
  "config initialConfig =
     \<lparr>initialValue = or_default (p_initialValue initialConfig) (initialValue defaultConfig),
      minValue = or_default (p_minValue initialConfig) (minValue defaultConfig),
      maxValue = or_default (p_maxValue initialConfig) (maxValue defaultConfig),
      step = or_default (p_step initialConfig) (step defaultConfig),
      enableHistory = or_default (p_enableHistory initialConfig) (enableHistory defaultConfig),
      enablePersistence =
        or_default (p_enablePersistence initialConfig) (enablePersistence defaultConfig)\<rparr>"

definition initialState :: "CounterConfig \<Rightarrow> CounterState" where
  "initialState cfg = \<lparr>value = initialValue cfg, isLoading = False, error = None, history = []\<rparr>"

text \<open>
  The four callbacks of the hook. \<open>increment\<close> and \<open>decrement\<close> are closures over the
  \<open>state.value\<close> of the render that built them: their guard reads the rendered state,
  while the dispatched action is reduced on the state the queue has reached, which
  differs from the rendered one when several calls are made before the next render.
  A callback takes the rendered state and the queued state and returns the queued state
  after its dispatch (the same state when its guard suppresses the dispatch). \<open>reset\<close>
  and \<open>setValue\<close> read no state.
\<close>

definition increment ::
  "CounterConfig \<Rightarrow> ambient \<Rightarrow> CounterState \<Rightarrow> CounterState \<Rightarrow> CounterState" where
  "increment cfg amb rendered state =
     (if js_lt (value rendered) (maxValue cfg)
      then counterReducer amb state \<lparr>type = INCREMENT, payload = None\<rparr>
      else state)"

definition decrement ::
  "CounterConfig \<Rightarrow> ambient \<Rightarrow> CounterState \<Rightarrow> CounterState \<Rightarrow> CounterState" where
  "decrement cfg amb rendered state =
     (if js_gt (value rendered) (minValue cfg)
      then counterReducer amb state \<lparr>type = DECREMENT, payload = None\<rparr>
      else state)"

definition reset :: "CounterConfig \<Rightarrow> ambient \<Rightarrow> CounterState \<Rightarrow> CounterState" where
  "reset cfg amb state = counterReducer amb state \<lparr>type = RESET, payload = None\<rparr>"

definition setValue ::
  "CounterConfig \<Rightarrow> ambient \<Rightarrow> number \<Rightarrow> CounterState \<Rightarrow> CounterState" where
  "setValue cfg amb v state =
     (let clampedValue = Math_max (minValue cfg) (Math_min (maxValue cfg) v) in
      counterReducer amb state \<lparr>type = SET_VALUE, payload = Some clampedValue\<rparr>)"

definition isAtMin :: "CounterConfig \<Rightarrow> CounterState \<Rightarrow> bool" where
  "isAtMin cfg state = js_le (value state) (minValue cfg)"

definition isAtMax :: "CounterConfig \<Rightarrow> CounterState \<Rightarrow> bool" where
  "isAtMax cfg state = js_ge (value state) (maxValue cfg)"

text \<open>
  Calls through the hook's interface. The calls made between two renders form a batch:
  all of them see the state of the render before the batch, and each dispatch is
  reduced on the state left by the one before it. After the batch the hook renders
  the state the batch ended in. \<open>batch_trace\<close> lists the state after every call of a
  batch, \<open>hook_trace\<close> the state after every call of a sequence of batches. Each call
  comes with the ambient values its dispatch reads.
\<close>

datatype hook_call = CallIncrement | CallDecrement | CallReset | CallSetValue number

fun hook_apply ::
  "CounterConfig \<Rightarrow> ambient \<Rightarrow> CounterState \<Rightarrow> CounterState \<Rightarrow> hook_call \<Rightarrow> CounterState" where
  "hook_apply cfg amb rendered s CallIncrement = increment cfg amb rendered s"
| "hook_apply cfg amb rendered s CallDecrement = decrement cfg amb rendered s"
| "hook_apply cfg amb rendered s CallReset = reset cfg amb s"
| "hook_apply cfg amb rendered s (CallSetValue v) = setValue cfg amb v s"

fun batch_trace ::
  "CounterConfig \<Rightarrow> CounterState \<Rightarrow> CounterState \<Rightarrow> (ambient \<times> hook_call) list
     \<Rightarrow> CounterState list" where
  "batch_trace cfg rendered s [] = []"
| "batch_trace cfg rendered s ((amb, c) # cs) =
     (let s' = hook_apply cfg amb rendered s c in s' # batch_trace cfg rendered s' cs)"

fun hook_trace ::
  "CounterConfig \<Rightarrow> CounterState \<Rightarrow> (ambient \<times> hook_call) list list \<Rightarrow> CounterState list" where
  "hook_trace cfg s [] = []"
| "hook_trace cfg s (b # bs) =
     (let ts = batch_trace cfg s s b in ts @ hook_trace cfg (last (s # ts)) bs)"

definition in_bounds :: "CounterConfig \<Rightarrow> CounterState \<Rightarrow> bool" where
  "in_bounds cfg s = (js_le (minValue cfg) (value s) \<and> js_le (value s) (maxValue cfg))"

section \<open>The theme resolver (src/hooks/index.ts, src/types/index.ts)\<close>

text \<open>
  \<open>ThemeMode\<close> is a const object of string literals, like \<open>CounterActionType\<close>.
\<close>

type_synonym ThemeMode = string

definition LIGHT :: ThemeMode where
  "LIGHT = ''light''"

definition DARK :: ThemeMode where
  "DARK = ''dark''"

definition SYSTEM :: ThemeMode where
  "SYSTEM = ''system''"

text \<open>
  The memo \<open>currentTheme\<close> of \<open>useTheme\<close>: its dependency list is
  \<open>[themeStorage.value, systemTheme]\<close>, the two arguments here.
\<close>

definition currentTheme :: "ThemeMode \<Rightarrow> ThemeMode \<Rightarrow> ThemeMode" where
  "currentTheme themeStorage_value systemTheme =
     (if themeStorage_value = SYSTEM then systemTheme else themeStorage_value)"

section \<open>Browser storage and \<open>useLocalStorage\<close> (src/hooks/index.ts)\<close>

text \<open>
  The platform under the hook. An exception is the text a template literal renders it
  as. \<open>window.localStorage\<close> is a map from keys to strings; \<open>setItem\<close> throws when
  the medium refuses the write (the field \<open>accepts\<close> decides, for instance by quota),
  and \<open>getItem\<close> does not throw. \<open>JSON.stringify\<close> and \<open>JSON.parse\<close> are
  arguments of the functions that call them: \<open>stringify v\<close> is the string handed to
  \<open>setItem\<close> or the exception thrown, \<open>parse s\<close> the value read from a stored string
  or the exception thrown.
\<close>

type_synonym exn = string

record Storage =
  items :: "string \<rightharpoonup> string"
  accepts :: "string \<Rightarrow> string \<Rightarrow> bool"

definition Storage_getItem :: "Storage \<Rightarrow> string \<Rightarrow> string option" where
  "Storage_getItem storage key = items storage key"

definition Storage_setItem :: "Storage \<Rightarrow> string \<Rightarrow> string \<Rightarrow> exn + Storage" where
  "Storage_setItem storage key s =
     (if accepts storage key s
      then Inr (storage\<lparr>items := (items storage)(key \<mapsto> s)\<rparr>)
      else Inl ''QuotaExceededError'')"

text \<open>
  The three state cells of one \<open>useLocalStorage\<close> instance (\<open>isLoading\<close> and \<open>error\<close>
  carry the prefix \<open>ls_\<close>: the counter state has fields of the same names).
\<close>

record 'a UseLocalStorage =
  storedValue :: 'a
  ls_isLoading :: bool
  ls_error :: "string option"

definition useLocalStorage_initial :: "'a \<Rightarrow> 'a UseLocalStorage" where
  "useLocalStorage_initial initVal =
     \<lparr>storedValue = initVal, ls_isLoading = True, ls_error = None\<rparr>"

text \<open>
  The effect that initialises the value from storage. \<open>if (item)\<close> is false for
  \<open>null\<close> and for the empty string. The storage is returned beside the hook state: the
  effect only reads it.
\<close>

definition useLocalStorage_effect ::
  "(string \<Rightarrow> exn + 'a) \<Rightarrow> string \<Rightarrow> 'a UseLocalStorage \<times> Storage
     \<Rightarrow> 'a UseLocalStorage \<times> Storage" where
  "useLocalStorage_effect parse key hs =
     (case hs of (h, storage) \<Rightarrow>
        (case Storage_getItem storage key of
           None \<Rightarrow> (h\<lparr>ls_error := None, ls_isLoading := False\<rparr>, storage)
         | Some item \<Rightarrow>
             if item = [] then (h\<lparr>ls_error := None, ls_isLoading := False\<rparr>, storage)
             else
               (case parse item of
                  Inr parsedValue \<Rightarrow>
                    (h\<lparr>storedValue := parsedValue, ls_error := None, ls_isLoading := False\<rparr>,
                     storage)
                | Inl err \<Rightarrow>
                    (h\<lparr>ls_error := Some (''Failed to read from localStorage: '' @ err),
                       ls_isLoading := False\<rparr>,
                     storage))))"

text \<open>\<open>setValue\<close> takes a value or a function of the previous value.\<close>

datatype 'a value_or_updater = Plain 'a | Updater "'a \<Rightarrow> 'a"

definition useLocalStorage_setValue ::
  "('a \<Rightarrow> exn + string) \<Rightarrow> string \<Rightarrow> 'a value_or_updater
     \<Rightarrow> 'a UseLocalStorage \<times> Storage \<Rightarrow> 'a UseLocalStorage \<times> Storage" where
  "useLocalStorage_setValue stringify key arg hs =
     (case hs of (h, storage) \<Rightarrow>
        (let valueToStore = (case arg of Updater f \<Rightarrow> f (storedValue h) | Plain v \<Rightarrow> v);
             h' = h\<lparr>ls_error := None, storedValue := valueToStore\<rparr>
         in case stringify valueToStore of
              Inl err \<Rightarrow>
                (h'\<lparr>ls_error := Some (''Failed to write to localStorage: '' @ err)\<rparr>, storage)
            | Inr s \<Rightarrow>
                (case Storage_setItem storage key s of
                   Inl err \<Rightarrow>
                     (h'\<lparr>ls_error := Some (''Failed to write to localStorage: '' @ err)\<rparr>,
                      storage)
                 | Inr storage' \<Rightarrow> (h', storage'))))"

text \<open>
  Reading a key with a default: a fresh \<open>useLocalStorage(key, default)\<close> whose effect
  has run; the result is its \<open>value\<close>.
\<close>

definition useLocalStorage_read ::
  "(string \<Rightarrow> exn + 'a) \<Rightarrow> string \<Rightarrow> 'a \<Rightarrow> Storage \<Rightarrow> 'a \<times> Storage" where
  "useLocalStorage_read parse key dflt storage =
     (case useLocalStorage_effect parse key (useLocalStorage_initial dflt, storage) of
        (h, storage') \<Rightarrow> (storedValue h, storage'))"

subsection \<open>The storage adapter (src/utils/index.ts)\<close>

text \<open>
  \<open>createStorageAdapter\<close>: \<open>getItem\<close> returns the parsed value, or \<open>null\<close> (here
  \<open>None\<close>) when the entry is absent, empty or does not parse; \<open>setItem\<close> returns
  nothing and logs a failure, here the first component of its result.
\<close>

definition getItem :: "(string \<Rightarrow> exn + 'a) \<Rightarrow> Storage \<Rightarrow> string \<Rightarrow> 'a option \<times> Storage" where
  "getItem parse storage key =
     (case Storage_getItem storage key of
        None \<Rightarrow> (None, storage)
      | Some item \<Rightarrow>
          if item = [] then (None, storage)
          else (case parse item of Inr v \<Rightarrow> (Some v, storage) | Inl err \<Rightarrow> (None, storage)))"

definition setItem ::
  "('a \<Rightarrow> exn + string) \<Rightarrow> Storage \<Rightarrow> string \<Rightarrow> 'a \<Rightarrow> exn option \<times> Storage" where
  "setItem stringify storage key v =
     (case stringify v of
        Inl err \<Rightarrow> (Some err, storage)
      | Inr s \<Rightarrow>
          (case Storage_setItem storage key s of
             Inl err \<Rightarrow> (Some err, storage)
           | Inr storage' \<Rightarrow> (None, storage')))"

text \<open>
  A value is serializable when \<open>stringify\<close> gives a string for it that is not empty
  and that \<open>parse\<close> reads back as the same value.
\<close>

definition serializable :: "('a \<Rightarrow> exn + string) \<Rightarrow> (string \<Rightarrow> exn + 'a) \<Rightarrow> 'a \<Rightarrow> bool" where
  "serializable stringify parse v =
     (case stringify v of Inl err \<Rightarrow> False | Inr s \<Rightarrow> s \<noteq> [] \<and> parse s = Inr v)"

section \<open>The theme hook (src/hooks/index.ts)\<close>

record ThemeHook =
  themeStorage :: "ThemeMode UseLocalStorage"
  systemTheme :: ThemeMode

definition prefers_color_scheme :: "bool \<Rightarrow> ThemeMode" where
  "prefers_color_scheme matches = (if matches then DARK else LIGHT)"

definition useTheme_initial :: "bool \<Rightarrow> ThemeHook" where
  "useTheme_initial matches =
     \<lparr>themeStorage = useLocalStorage_initial SYSTEM,
      systemTheme = prefers_color_scheme matches\<rparr>"

definition handleChange :: "bool \<Rightarrow> ThemeHook \<Rightarrow> ThemeHook" where
  "handleChange matches t = t\<lparr>systemTheme := prefers_color_scheme matches\<rparr>"

definition useTheme_currentTheme :: "ThemeHook \<Rightarrow> ThemeMode" where
  "useTheme_currentTheme t = currentTheme (storedValue (themeStorage t)) (systemTheme t)"

definition setTheme ::
  "(ThemeMode \<Rightarrow> exn + string) \<Rightarrow> ThemeMode \<Rightarrow> ThemeHook \<times> Storage \<Rightarrow> ThemeHook \<times> Storage" where
  "setTheme stringify mode ts =
     (case ts of (t, storage) \<Rightarrow>
        (case useLocalStorage_setValue stringify ''theme-mode'' (Plain mode)
                (themeStorage t, storage) of
           (h', storage') \<Rightarrow> (t\<lparr>themeStorage := h'\<rparr>, storage')))"

definition toggleTheme ::
  "(ThemeMode \<Rightarrow> exn + string) \<Rightarrow> ThemeHook \<times> Storage \<Rightarrow> ThemeHook \<times> Storage" where
  "toggleTheme stringify ts =
     (case ts of (t, storage) \<Rightarrow>
        (let nextMode = (if useTheme_currentTheme t = DARK then LIGHT else DARK) in
         case useLocalStorage_setValue stringify ''theme-mode'' (Plain nextMode)
                (themeStorage t, storage) of
           (h', storage') \<Rightarrow> (t\<lparr>themeStorage := h'\<rparr>, storage')))"

abbreviation stored_preference :: "ThemeHook \<times> Storage \<Rightarrow> ThemeMode" where
  "stored_preference ts \<equiv> storedValue (themeStorage (fst ts))"

text \<open>Concrete inputs used to instantiate the theorems below.\<close>

definition amb0 :: ambient where
  "amb0 = \<lparr>randomUUID = ''u-1'', now_timestamp = 1000, now_createdAt = 1000,
           now_updatedAt = 1001\<rparr>"

definition state_at :: "real \<Rightarrow> CounterState" where
  "state_at v = \<lparr>value = Finite v, isLoading = False, error = None, history = []\<rparr>"

definition cfg_bounds :: "real \<Rightarrow> real \<Rightarrow> real \<Rightarrow> CounterConfig" where
  "cfg_bounds lo hi init =
     \<lparr>initialValue = Finite init, minValue = Finite lo, maxValue = Finite hi,
      step = Finite 1, enableHistory = True, enablePersistence = False\<rparr>"

definition calls0 :: "(ambient \<times> hook_call) list list" where
  "calls0 = [[(amb0, CallDecrement)], [(amb0, CallSetValue (Finite 99)), (amb0, CallIncrement)],
             [(amb0, CallReset)], [(amb0, CallDecrement), (amb0, CallSetValue NaN)]]"

definition store0 :: store where
  "store0 = \<lparr>objects = [0 \<mapsto> state_at 7], next_ref = 1\<rparr>"

text \<open>
  A sample codec on theme modes: it writes a mode between double quotes, as
  \<open>JSON.stringify\<close> does for these strings, and reads the three quoted modes back.
\<close>

definition quoted :: "string \<Rightarrow> string" where
  "quoted s = CHR 0x22 # s @ [CHR 0x22]"

definition sample_stringify :: "ThemeMode \<Rightarrow> exn + string" where
  "sample_stringify m = Inr (quoted m)"

definition sample_parse :: "string \<Rightarrow> exn + ThemeMode" where
  "sample_parse s =
     (if s = quoted LIGHT then Inr LIGHT
      else if s = quoted DARK then Inr DARK
      else if s = quoted SYSTEM then Inr SYSTEM
      else Inl ''SyntaxError'')"

definition storage0 :: Storage where
  "storage0 = \<lparr>items = Map.empty, accepts = (\<lambda>k s. length s \<le> 16)\<rparr>"

definition theme0 :: ThemeHook where
  "theme0 = \<lparr>themeStorage = \<lparr>storedValue = SYSTEM, ls_isLoading = False, ls_error = None\<rparr>,
             systemTheme = DARK\<rparr>"

definition storage_bad :: Storage where
  "storage_bad = storage0\<lparr>items := [''theme-mode'' \<mapsto> ''{bad'']\<rparr>"

section \<open>Exact and rounded arithmetic\<close>

text \<open>
  A dyadic rational whose numerator has fewer than 54 bits is a double: rounding leaves
  it as it is. In particular every integer of magnitude below \<open>2 ^ 53\<close> is exact.
\<close>

lemma round_half_even_of_int: "round_half_even (of_int z) = z"
  by (simp add: round_half_even_def)

lemma to_double_dyadic:
  assumes n: "\<bar>n\<bar> < 2 ^ 53" and j: "j \<le> 1022"
  shows "to_double (of_int n / 2 ^ j) = Finite (of_int n / 2 ^ j)"
proof (cases "n = 0")
  case True
  then show ?thesis by (simp add: to_double_def)
next
  case False
  define x :: real where "x = of_int n / 2 ^ j"
  define k where "k = \<lfloor>log 2 \<bar>x\<bar>\<rfloor>"
  have xne: "x \<noteq> 0" using False by (simp add: x_def)
  have xpos: "0 < \<bar>x\<bar>" using xne by simp
  have absx: "\<bar>x\<bar> = of_int \<bar>n\<bar> * 2 powr (- real j)"
    by (simp add: x_def powr_minus powr_realpow field_simps)
  have kb: "2 powr of_int k \<le> \<bar>x\<bar>" "\<bar>x\<bar> < 2 powr (of_int k + 1)"
    using floor_log_eq_powr_iff [of "\<bar>x\<bar>" 2 k] xpos k_def by auto
  have n1: "1 \<le> \<bar>n\<bar>" using False by simp
  have nr: "real_of_int \<bar>n\<bar> < 2 ^ 53"
  proof -
    have "real_of_int \<bar>n\<bar> < real_of_int (2 ^ 53)"
      using n by (simp only: of_int_less_iff)
    then show ?thesis by simp
  qed
  have lo: "2 powr (- real j) \<le> \<bar>x\<bar>"
  proof -
    have "(1::real) \<le> of_int \<bar>n\<bar>" using n1 by linarith
    then have "1 * 2 powr (- real j) \<le> of_int \<bar>n\<bar> * 2 powr (- real j)"
      by (intro mult_right_mono) simp_all
    then show ?thesis using absx by simp
  qed
  have "2 powr (- real j) < 2 powr (of_int k + 1)" using lo kb(2) by linarith
  then have "- real j < of_int k + 1" by simp
  then have kj: "- int j \<le> k" by linarith
  have hi: "\<bar>x\<bar> < 2 powr (53 - real j)"
  proof -
    from nr have "of_int \<bar>n\<bar> * 2 powr (- real j) < 2 ^ 53 * 2 powr (- real j)"
      by (intro mult_strict_right_mono) simp_all
    also have "\<dots> = 2 powr (53 - real j)"
      by (simp add: powr_diff powr_minus divide_inverse)
    finally show ?thesis using absx by simp
  qed
  have "2 powr of_int k < 2 powr (53 - real j)" using kb(1) hi by linarith
  then have "of_int k < 53 - real j" by simp
  then have kj2: "k + int j \<le> 52" by linarith
  have kmax: "max k (-1022) = k" using kj j by simp
  define m where "m = nat (52 - k - int j)"
  have q: "quantum x = 2 powr (of_int k - 52)"
    by (simp add: quantum_def k_def [symmetric] kmax)
  have xn: "x = of_int n * 2 powr (- real j)"
    by (simp add: x_def powr_minus powr_realpow divide_inverse)
  have "x / quantum x = x * 2 powr (- (of_int k - 52))"
    unfolding q by (simp only: divide_inverse powr_minus)
  also have "\<dots> = of_int n * (2 powr (- real j) * 2 powr (52 - of_int k))"
    by (simp add: xn)
  also have "2 powr (- real j) * 2 powr (52 - of_int k) = 2 powr (real m)"
    unfolding powr_add [symmetric] m_def using kj2 by (simp add: algebra_simps)
  also have "\<dots> = 2 ^ m" by (simp add: powr_realpow)
  finally have xq: "x / quantum x = of_int (n * 2 ^ m)" by simp
  have y: "of_int (round_half_even (x / quantum x)) * quantum x = x"
  proof -
    have "of_int (round_half_even (x / quantum x)) = x / quantum x"
      unfolding xq round_half_even_of_int ..
    moreover have "quantum x \<noteq> 0" by (simp add: q)
    ultimately show ?thesis by simp
  qed
  have "\<bar>x\<bar> \<le> of_int \<bar>n\<bar>"
  proof -
    have "(1::real) \<le> 2 ^ j" by simp
    then have "\<bar>real_of_int n\<bar> * 1 \<le> \<bar>real_of_int n\<bar> * 2 ^ j"
      by (intro mult_left_mono) simp_all
    then show ?thesis by (simp add: x_def field_simps)
  qed
  moreover note nr
  moreover have "(2::real) ^ 53 < 2 ^ 1024" by simp
  ultimately have b: "\<bar>x\<bar> < 2 ^ 1024" by linarith
  then have "\<not> 2 ^ 1024 \<le> x" "\<not> x \<le> - (2 ^ 1024)" by linarith+
  then show ?thesis
    unfolding x_def [symmetric] using xne y by (simp add: to_double_def Let_def)
qed

lemma to_double_of_int:
  "\<bar>n\<bar> < 2 ^ 53 \<Longrightarrow> to_double (of_int n) = Finite (of_int n)"
  using to_double_dyadic [of n 0] by simp

lemma to_double_numeral:
  "(numeral w :: int) < 2 ^ 53 \<Longrightarrow> to_double (numeral w) = Finite (numeral w)"
  using to_double_of_int [of "numeral w"] by simp

lemma to_double_neg_numeral:
  "(numeral w :: int) < 2 ^ 53 \<Longrightarrow> to_double (- numeral w) = Finite (- numeral w)"
  using to_double_of_int [of "- numeral w"] by simp

lemma to_double_zero_one:
  "to_double 0 = Finite 0" "to_double 1 = Finite 1" "to_double (- 1) = Finite (- 1)"
  using to_double_of_int [of 0] to_double_of_int [of 1] to_double_of_int [of "- 1"]
  by simp_all

lemma to_double_half:
  "(numeral w :: int) < 2 ^ 53 \<Longrightarrow> to_double (numeral w / 2) = Finite (numeral w / 2)"
  using to_double_dyadic [of "numeral w" 1] by simp

lemmas to_double_exact =
  to_double_numeral to_double_neg_numeral to_double_zero_one to_double_half

text \<open>
  Beyond \<open>2 ^ 53\<close> the integers are no longer all doubles: \<open>2 ^ 53 + 1\<close> lies halfway
  between two doubles and rounds to the even one, \<open>2 ^ 53\<close>.
\<close>

lemma to_double_rounds:
  "to_double (9007199254740992 + 1) = Finite 9007199254740992"
proof -
  have k: "\<lfloor>log 2 (9007199254740993::real)\<rfloor> = 53"
    using floor_log_eq_powr_iff [of "9007199254740993::real" 2 53] by simp
  have q: "quantum 9007199254740993 = 2"
    by (simp add: quantum_def k)
  have f: "\<lfloor>9007199254740993 / (2::real)\<rfloor> = 4503599627370496"
    by (simp add: floor_eq_iff)
  have r: "round_half_even (9007199254740993 / 2) = 4503599627370496"
    by (simp add: round_half_even_def f Let_def)
  show ?thesis
    by (simp add: to_double_def q r Let_def)
qed

lemma increment_at_two_pow_53:
  "js_add (Finite 9007199254740992) (Finite 1) = Finite 9007199254740992"
  using to_double_rounds by simp


section \<open>Properties of the reducer\<close>

lemma action_types_distinct:
  "INCREMENT \<noteq> DECREMENT" "INCREMENT \<noteq> RESET" "INCREMENT \<noteq> SET_VALUE"
  "DECREMENT \<noteq> RESET" "DECREMENT \<noteq> SET_VALUE" "RESET \<noteq> SET_VALUE"
  by (simp_all add: INCREMENT_def DECREMENT_def RESET_def SET_VALUE_def)

lemma reducer_increment:
  "type act = INCREMENT \<Longrightarrow> counterReducer amb state act =
     state\<lparr>value := js_add (value state) (Finite 1),
           history := history state @
             [createHistoryEntry amb INCREMENT (value state)
               (js_add (value state) (Finite 1))]\<rparr>"
  by (simp add: counterReducer_def Let_def)

lemma reducer_decrement:
  "type act = DECREMENT \<Longrightarrow> counterReducer amb state act =
     state\<lparr>value := Math_max (Finite 0) (js_sub (value state) (Finite 1)),
           history := history state @
             [createHistoryEntry amb DECREMENT (value state)
               (Math_max (Finite 0) (js_sub (value state) (Finite 1)))]\<rparr>"
  using action_types_distinct by (simp add: counterReducer_def Let_def)

lemma reducer_reset:
  "type act = RESET \<Longrightarrow> counterReducer amb state act =
     state\<lparr>value := Finite 0,
           history := history state @ [createHistoryEntry amb RESET (value state) (Finite 0)]\<rparr>"
  using action_types_distinct by (simp add: counterReducer_def Let_def)

lemma reducer_set_value:
  "type act = SET_VALUE \<Longrightarrow> counterReducer amb state act =
     state\<lparr>value := or_default (payload act) (Finite 0),
           history := history state @
             [createHistoryEntry amb SET_VALUE (value state) (or_default (payload act) (Finite 0))]\<rparr>"
  using action_types_distinct by (simp add: counterReducer_def Let_def or_default_def)

lemma reducer_default:
  "type act \<notin> recognized \<Longrightarrow> counterReducer amb state act = state"
  by (simp add: counterReducer_def recognized_def)

lemma recognized_cases:
  assumes "type act \<in> recognized"
  obtains "type act = INCREMENT" | "type act = DECREMENT" | "type act = RESET"
    | "type act = SET_VALUE"
  using assms by (auto simp: recognized_def)

lemma value_recognized:
  "value (counterReducer amb s \<lparr>type = INCREMENT, payload = p\<rparr>) = js_add (value s) (Finite 1)"
  "value (counterReducer amb s \<lparr>type = DECREMENT, payload = p\<rparr>)
     = Math_max (Finite 0) (js_sub (value s) (Finite 1))"
  "value (counterReducer amb s \<lparr>type = RESET, payload = p\<rparr>) = Finite 0"
  "value (counterReducer amb s \<lparr>type = SET_VALUE, payload = Some v\<rparr>) = v"
  by (simp_all add: reducer_increment reducer_decrement reducer_reset reducer_set_value
      or_default_def)

section \<open>History\<close>

text \<open>
  Claim C4. For every counter state and every action of one of the four recognized
  kinds, the history of the state the reducer returns is the history it was given with
  exactly one entry appended: the earlier entries are unchanged and in order and the
  length grows by one. The appended entry records the action's kind, its
  \<open>previousValue\<close> is the value before the dispatch and its \<open>newValue\<close> is the value
  after it.
\<close>

theorem dispatch_appends_one_history_entry:
  assumes "type act \<in> recognized"
  shows "\<exists>e. history (counterReducer amb state act) = history state @ [e]
           \<and> previousValue e = value state
           \<and> newValue e = value (counterReducer amb state act)
           \<and> action e = type act
           \<and> length (history (counterReducer amb state act)) = length (history state) + 1"
  using assms
proof (cases rule: recognized_cases)
  case 1
  then show ?thesis by (simp add: reducer_increment createHistoryEntry_def)
next
  case 2
  then show ?thesis by (simp add: reducer_decrement createHistoryEntry_def)
next
  case 3
  then show ?thesis by (simp add: reducer_reset createHistoryEntry_def)
next
  case 4
  then show ?thesis by (simp add: reducer_set_value createHistoryEntry_def)
qed

theorem dispatch_appends_one_history_entry_witness:
  "type \<lparr>type = DECREMENT, payload = None\<rparr> \<in> recognized
   \<and> (\<exists>e. history (counterReducer amb0 (state_at 3) \<lparr>type = DECREMENT, payload = None\<rparr>)
            = history (state_at 3) @ [e]
          \<and> previousValue e = Finite 3 \<and> newValue e = Finite 2 \<and> action e = DECREMENT)"
proof -
  have r: "type \<lparr>type = DECREMENT, payload = None\<rparr> \<in> recognized"
    by (simp add: recognized_def)
  have v: "value (counterReducer amb0 (state_at 3) \<lparr>type = DECREMENT, payload = None\<rparr>)
             = Finite 2"
    by (simp add: value_recognized state_at_def js_sub_def Math_max_def to_double_exact)
  from dispatch_appends_one_history_entry [OF r, of amb0 "state_at 3"] v r
  show ?thesis by (auto simp: state_at_def)
qed

section \<open>Increment\<close>




section \<open>Decrement\<close>

text \<open>
  Claim C3: dispatching Decrement is to yield \<open>max (value - step) minValue\<close>. The
  guard of the hook's \<open>decrement\<close>, \<open>isAtMin\<close> and the clamp of \<open>setValue\<close> all read the
  configured \<open>minValue\<close>, but the reducer floors at the constant 0. With
  \<open>minValue = -5\<close>, \<open>step = 1\<close> and \<open>initialValue = -3\<close>, a call of \<open>decrement\<close> passes the
  guard and the value becomes 0, where the claim gives -4: the decrement raises the
  value. A further call at 0 appends an entry from 0 to 0.
\<close>

theorem decrement_floors_at_zero_not_minValue:
  "map value (hook_trace (cfg_bounds (-5) 10 (-3)) (initialState (cfg_bounds (-5) 10 (-3)))
      [[(amb0, CallDecrement)], [(amb0, CallDecrement)]]) = [Finite 0, Finite 0]
   \<and> Math_max (js_sub (value (initialState (cfg_bounds (-5) 10 (-3))))
                  (step (cfg_bounds (-5) 10 (-3))))
        (minValue (cfg_bounds (-5) 10 (-3))) = Finite (-4)
   \<and> map (\<lambda>e. (previousValue e, newValue e))
        (history (last (hook_trace (cfg_bounds (-5) 10 (-3))
           (initialState (cfg_bounds (-5) 10 (-3)))
           [[(amb0, CallDecrement)], [(amb0, CallDecrement)]])))
       = [(Finite (-3), Finite 0), (Finite 0, Finite 0)]"
  by (simp add: cfg_bounds_def initialState_def decrement_def js_gt_def reducer_decrement
      createHistoryEntry_def js_sub_def Math_max_def to_double_exact Let_def)

section \<open>The bound invariant\<close>

text \<open>
  Claim C1: the value is to stay within \<open>minValue\<close> and \<open>maxValue\<close> after every call
  through the hook. The guard of \<open>increment\<close> is there to keep the upper bound, but it
  reads the value of the rendered state: with \<open>minValue = 0\<close>, \<open>maxValue = 10\<close> and
  \<open>initialValue = 9\<close>, two calls of \<open>increment\<close> before the next render both pass
  the guard and leave the value 11, above \<open>maxValue\<close>.
\<close>

theorem batched_increments_exceed_maxValue:
  "map value (hook_trace (cfg_bounds 0 10 9) (initialState (cfg_bounds 0 10 9))
      [[(amb0, CallIncrement), (amb0, CallIncrement)]]) = [Finite 10, Finite 11]
   \<and> \<not> in_bounds (cfg_bounds 0 10 9)
         (last (hook_trace (cfg_bounds 0 10 9) (initialState (cfg_bounds 0 10 9))
            [[(amb0, CallIncrement), (amb0, CallIncrement)]]))"
  by (simp add: cfg_bounds_def initialState_def increment_def value_recognized
      reducer_increment in_bounds_def to_double_exact Let_def)

text \<open>
  The bound is lost on three more paths: \<open>reset\<close> sets the value to 0 whatever the
  bounds are, the initial value is not clamped, and a value that is not an integer
  steps over \<open>maxValue\<close> from below it.
\<close>

lemma reset_ignores_bounds:
  "\<not> in_bounds (cfg_bounds 5 10 5)
       (last (hook_trace (cfg_bounds 5 10 5) (initialState (cfg_bounds 5 10 5))
          [[(amb0, CallReset)]]))"
  by (simp add: in_bounds_def cfg_bounds_def initialState_def reset_def value_recognized)

lemma initial_value_not_clamped:
  "\<not> in_bounds (cfg_bounds 0 10 (-3))
       (last (hook_trace (cfg_bounds 0 10 (-3)) (initialState (cfg_bounds 0 10 (-3)))
          [[(amb0, CallIncrement)]]))"
  by (simp add: in_bounds_def cfg_bounds_def initialState_def increment_def
      value_recognized to_double_exact)

lemma fraction_steps_over_maxValue:
  "map value (hook_trace (cfg_bounds 0 10 0) (initialState (cfg_bounds 0 10 0))
      [[(amb0, CallSetValue (Finite 9.5))], [(amb0, CallIncrement)]])
     = [Finite 9.5, Finite 10.5]"
  by (simp add: cfg_bounds_def initialState_def increment_def setValue_def value_recognized
      reducer_set_value reducer_increment or_default_def Math_max_def Math_min_def
      to_double_exact Let_def)

text \<open>
  The default configuration (no key given) has bounds 0 and \<open>MAX_SAFE_INTEGER\<close> and
  starts at 0.
\<close>

lemma default_config:
  "config \<lparr>p_initialValue = None, p_minValue = None, p_maxValue = None, p_step = None,
           p_enableHistory = None, p_enablePersistence = None\<rparr> = defaultConfig"
  "in_bounds defaultConfig (initialState defaultConfig)"
  by (simp_all add: config_def or_default_def defaultConfig_def MAX_SAFE_INTEGER_def
      in_bounds_def initialState_def)

section \<open>The error field\<close>

lemma reducer_keeps_error: "error (counterReducer amb s act) = error s"
  by (simp add: counterReducer_def Let_def)

lemma hook_apply_keeps_error: "error (hook_apply cfg amb rendered s c) = error s"
  by (cases c) (simp_all add: increment_def decrement_def reset_def setValue_def Let_def
      reducer_keeps_error)

lemma batch_trace_keeps_error:
  "\<forall>s' \<in> set (batch_trace cfg rendered s cs). error s' = error s"
proof (induction cs arbitrary: s)
  case Nil
  show ?case by simp
next
  case (Cons x cs)
  obtain amb c where x: "x = (amb, c)" by (cases x)
  from Cons.IH [of "hook_apply cfg amb rendered s c"] x show ?case
    by (simp add: Let_def hook_apply_keeps_error)
qed

lemma last_batch_keeps_error: "error (last (s # batch_trace cfg rendered s cs)) = error s"
proof (cases "batch_trace cfg rendered s cs = []")
  case True
  then show ?thesis by simp
next
  case False
  then have "last (s # batch_trace cfg rendered s cs) \<in> set (batch_trace cfg rendered s cs)"
    by simp
  with batch_trace_keeps_error show ?thesis by blast
qed

lemma hook_trace_keeps_error:
  "\<forall>s' \<in> set (hook_trace cfg s bs). error s' = error s"
proof (induction bs arbitrary: s)
  case Nil
  show ?case by simp
next
  case (Cons b bs)
  define s1 where "s1 = last (s # batch_trace cfg s s b)"
  have e1: "error s1 = error s"
    unfolding s1_def by (rule last_batch_keeps_error)
  have "\<forall>s' \<in> set (hook_trace cfg s1 bs). error s' = error s1"
    by (rule Cons.IH)
  with e1 have rest: "\<forall>s' \<in> set (hook_trace cfg s1 bs). error s' = error s"
    by simp
  have "hook_trace cfg s (b # bs) = batch_trace cfg s s b @ hook_trace cfg s1 bs"
    unfolding s1_def by (simp only: hook_trace.simps Let_def)
  with rest batch_trace_keeps_error [of cfg s s b] show ?case
    by auto
qed

text \<open>
  Claim C5. The counter state of the hook starts with no error, and every state the
  hook reaches, after every call of \<open>increment\<close>, \<open>decrement\<close>, \<open>reset\<close> or \<open>setValue\<close> in
  any batches and for every configuration, has no error: after every dispatch of a
  recognized action the error field is null. No dispatch sets the field: the reducer
  returns the error it was given, so a state without an error never gets one.
\<close>

theorem error_null_after_every_dispatch:
  "error (initialState cfg) = None
   \<and> (\<forall>s \<in> set (hook_trace cfg (initialState cfg) bs). error s = None)
   \<and> (error state = None \<longrightarrow> error (counterReducer amb state act) = None)
   \<and> error (counterReducer amb state act) = error state"
  using hook_trace_keeps_error [of cfg "initialState cfg" bs]
  by (simp add: reducer_keeps_error initialState_def)

theorem error_null_after_every_dispatch_witness:
  "error (initialState (cfg_bounds 0 10 1)) = None
   \<and> map value (hook_trace (cfg_bounds 0 10 1) (initialState (cfg_bounds 0 10 1)) calls0)
       = [Finite 0, Finite 10, Finite 11, Finite 0, Finite 0, NaN]
   \<and> list_all (\<lambda>s. error s = None)
        (hook_trace (cfg_bounds 0 10 1) (initialState (cfg_bounds 0 10 1)) calls0)
   \<and> error (state_at 4) = None
   \<and> error (counterReducer amb0 (state_at 4) \<lparr>type = RESET, payload = None\<rparr>) = None"
proof -
  have t: "map value (hook_trace (cfg_bounds 0 10 1) (initialState (cfg_bounds 0 10 1)) calls0)
       = [Finite 0, Finite 10, Finite 11, Finite 0, Finite 0, NaN]"
    by (simp add: calls0_def cfg_bounds_def initialState_def increment_def decrement_def
        reset_def setValue_def js_gt_def value_recognized reducer_set_value reducer_increment
        reducer_decrement reducer_reset or_default_def js_sub_def Math_max_def Math_min_def
        to_double_exact Let_def)
  have e: "error (state_at 4) = None" by (simp add: state_at_def)
  from error_null_after_every_dispatch [of "cfg_bounds 0 10 1" calls0 "state_at 4" amb0
      "\<lparr>type = RESET, payload = None\<rparr>"] t e
  show ?thesis by (simp add: list_all_iff)
qed

section \<open>Unrecognized actions\<close>

text \<open>
  Claim C6. For every counter state and every action whose kind is none of the four
  recognized kinds, the reducer returns, without failing, the state it was given. On
  references: it returns the reference it was given and leaves the store as it is, so
  the result is the very same object.
\<close>

theorem unrecognized_action_is_identity:
  assumes "type act \<notin> recognized"
  shows "counterReducer amb state act = state
         \<and> (objects h r = Some state \<longrightarrow> counterReducer_ref amb h r act = Some (r, h))"
  using assms by (simp add: reducer_default counterReducer_ref_def recognized_def)

theorem unrecognized_action_is_identity_witness:
  "type \<lparr>type = ''UNDO'', payload = Some (Finite 4)\<rparr> \<notin> recognized
   \<and> counterReducer amb0 (state_at 7) \<lparr>type = ''UNDO'', payload = Some (Finite 4)\<rparr> = state_at 7
   \<and> objects store0 0 = Some (state_at 7)
   \<and> counterReducer_ref amb0 store0 0 \<lparr>type = ''UNDO'', payload = Some (Finite 4)\<rparr>
       = Some (0, store0)"
proof -
  have u: "type \<lparr>type = ''UNDO'', payload = Some (Finite 4)\<rparr> \<notin> recognized"
    by (simp add: recognized_def INCREMENT_def DECREMENT_def RESET_def SET_VALUE_def)
  have o: "objects store0 0 = Some (state_at 7)" by (simp add: store0_def)
  from unrecognized_action_is_identity [OF u, of amb0 "state_at 7" store0 0] u o
  show ?thesis by simp
qed

text \<open>
  A recognized action, in contrast, returns a reference to a new object and leaves the
  object it was given untouched.
\<close>

lemma recognized_action_allocates:
  assumes "type act \<in> recognized" "objects h r = Some state" "store_ok h"
  shows "\<exists>r' h'. counterReducer_ref amb h r act = Some (r', h') \<and> r' \<noteq> r
           \<and> objects h' r' = Some (counterReducer amb state act)
           \<and> objects h' r = Some state"
proof -
  have "r < next_ref h" using assms(2,3) by (auto simp: store_ok_def)
  then show ?thesis
    using assms(1,2) by (auto simp: counterReducer_ref_def recognized_def alloc_def)
qed

section \<open>Boundary predicates\<close>

text \<open>
  Claim C10. \<open>isAtMin\<close> is true exactly when \<open>value \<le> minValue\<close> and \<open>isAtMax\<close>
  exactly when \<open>value \<ge> maxValue\<close>, as the comparisons of the program's numbers, which on
  finite numbers are the comparisons of the reals: the comparisons are inclusive
  thresholds, so a value strictly outside the bounds reports the flag too. An
  unclamped initial value of -3 under \<open>minValue = 0\<close> is at the minimum, and one of 12
  under \<open>maxValue = 10\<close> is at the maximum.
\<close>

theorem boundary_predicates_inclusive:
  "isAtMin cfg state = js_le (value state) (minValue cfg)
   \<and> isAtMax cfg state = js_ge (value state) (maxValue cfg)
   \<and> isAtMin (cfg\<lparr>minValue := Finite b\<rparr>) (state\<lparr>value := Finite a\<rparr>) = (a \<le> b)
   \<and> isAtMax (cfg\<lparr>maxValue := Finite b\<rparr>) (state\<lparr>value := Finite a\<rparr>) = (a \<ge> b)
   \<and> isAtMin (cfg_bounds 0 10 (-3)) (initialState (cfg_bounds 0 10 (-3)))
   \<and> isAtMax (cfg_bounds 0 10 12) (initialState (cfg_bounds 0 10 12))"
  by (simp add: isAtMin_def isAtMax_def js_ge_def cfg_bounds_def initialState_def)

section \<open>The theme resolver\<close>

lemma theme_modes_distinct: "LIGHT \<noteq> DARK" "LIGHT \<noteq> SYSTEM" "DARK \<noteq> SYSTEM"
  by (simp_all add: LIGHT_def DARK_def SYSTEM_def)

text \<open>
  Claim C7. For every stored preference and system signal, the effective mode is the
  stored preference when that is not System and the system signal when it is. The
  hook's effective mode is this function of its stored value and its system theme, and
  two hook states that agree on both have the same effective mode, whatever their
  loading flag and error are.
\<close>

theorem effective_mode_resolution:
  "(storedPreference \<noteq> SYSTEM \<longrightarrow> currentTheme storedPreference systemSignal = storedPreference)
   \<and> (storedPreference = SYSTEM \<longrightarrow> currentTheme storedPreference systemSignal = systemSignal)
   \<and> useTheme_currentTheme t = currentTheme (storedValue (themeStorage t)) (systemTheme t)
   \<and> (storedValue (themeStorage t) = storedValue (themeStorage t') \<and> systemTheme t = systemTheme t'
        \<longrightarrow> useTheme_currentTheme t = useTheme_currentTheme t')"
  by (simp add: currentTheme_def useTheme_currentTheme_def)

theorem effective_mode_resolution_witness:
  "LIGHT \<noteq> SYSTEM \<and> currentTheme LIGHT DARK = LIGHT \<and> currentTheme SYSTEM DARK = DARK
   \<and> useTheme_currentTheme theme0 = DARK
   \<and> useTheme_currentTheme (theme0\<lparr>themeStorage :=
        \<lparr>storedValue = SYSTEM, ls_isLoading = True, ls_error = Some ''x''\<rparr>\<rparr>) = DARK"
  using effective_mode_resolution [of LIGHT DARK theme0 theme0]
    effective_mode_resolution [of SYSTEM DARK theme0
      "theme0\<lparr>themeStorage := \<lparr>storedValue = SYSTEM, ls_isLoading = True, ls_error = Some ''x''\<rparr>\<rparr>"]
    theme_modes_distinct
  by (simp add: theme0_def)

text \<open>
  With the stored preference System, the effective mode follows the system signal: it
  is Dark while the system reports dark, and Light after a change event reports light,
  with no call of \<open>setTheme\<close>.
\<close>

lemma system_signal_followed:
  "useTheme_currentTheme (useTheme_initial True) = DARK"
  "useTheme_currentTheme (handleChange False (useTheme_initial True)) = LIGHT"
  by (simp_all add: useTheme_currentTheme_def useTheme_initial_def handleChange_def
      useLocalStorage_initial_def prefers_color_scheme_def currentTheme_def)

lemma setValue_plain_stored:
  "storedValue (fst (useLocalStorage_setValue stringify key (Plain v) (h, st))) = v"
  by (simp add: useLocalStorage_setValue_def Let_def split: sum.splits)

lemma toggle_stored:
  "stored_preference (toggleTheme stringify (t, st))
     = (if useTheme_currentTheme t = DARK then LIGHT else DARK)"
proof -
  let ?n = "if useTheme_currentTheme t = DARK then LIGHT else DARK"
  obtain h' st' where r: "useLocalStorage_setValue stringify ''theme-mode'' (Plain ?n)
      (themeStorage t, st) = (h', st')"
    by (cases "useLocalStorage_setValue stringify ''theme-mode'' (Plain ?n) (themeStorage t, st)")
  have "storedValue h' = ?n"
    using setValue_plain_stored [of stringify "''theme-mode''" ?n "themeStorage t" st] r by simp
  then show ?thesis
    using r by (simp add: toggleTheme_def Let_def)
qed

lemma toggle_persisted:
  assumes "stringify (if useTheme_currentTheme t = DARK then LIGHT else DARK) = Inr s"
    and "accepts st ''theme-mode'' s"
  shows "items (snd (toggleTheme stringify (t, st))) ''theme-mode'' = Some s"
  using assms
  by (simp add: toggleTheme_def Let_def useLocalStorage_setValue_def Storage_setItem_def
      split: prod.splits)

lemma setTheme_stored: "stored_preference (setTheme stringify mode (t, st)) = mode"
proof -
  obtain h' st' where r: "useLocalStorage_setValue stringify ''theme-mode'' (Plain mode)
      (themeStorage t, st) = (h', st')"
    by (cases "useLocalStorage_setValue stringify ''theme-mode'' (Plain mode) (themeStorage t, st)")
  have "storedValue h' = mode"
    using setValue_plain_stored [of stringify "''theme-mode''" mode "themeStorage t" st] r
    by simp
  then show ?thesis
    using r by (simp add: setTheme_def)
qed

text \<open>
  Claim C8. For every theme state, \<open>toggleTheme\<close> sets the stored preference to Light
  when the effective mode is Dark and to Dark when it is Light, and the effective mode
  follows; the stored preference after a toggle is never System. When the write to
  storage goes through, the entry \<open>theme-mode\<close> holds the new preference.
\<close>

theorem toggle_flips_light_dark:
  "(useTheme_currentTheme t = DARK \<longrightarrow>
      stored_preference (toggleTheme stringify (t, st)) = LIGHT
      \<and> useTheme_currentTheme (fst (toggleTheme stringify (t, st))) = LIGHT)
   \<and> (useTheme_currentTheme t = LIGHT \<longrightarrow>
      stored_preference (toggleTheme stringify (t, st)) = DARK
      \<and> useTheme_currentTheme (fst (toggleTheme stringify (t, st))) = DARK)
   \<and> stored_preference (toggleTheme stringify (t, st)) \<noteq> SYSTEM
   \<and> (stringify (if useTheme_currentTheme t = DARK then LIGHT else DARK) = Inr s
        \<and> accepts st ''theme-mode'' s \<longrightarrow>
      items (snd (toggleTheme stringify (t, st))) ''theme-mode'' = Some s)"
proof -
  have 1: "stored_preference (toggleTheme stringify (t, st))
     = (if useTheme_currentTheme t = DARK then LIGHT else DARK)"
    by (rule toggle_stored)
  have 2: "useTheme_currentTheme (fst (toggleTheme stringify (t, st)))
     = (if useTheme_currentTheme t = DARK then LIGHT else DARK)"
    unfolding useTheme_currentTheme_def [of "fst (toggleTheme stringify (t, st))"] 1
    using theme_modes_distinct by (simp add: currentTheme_def)
  show ?thesis
    unfolding 1 2 using theme_modes_distinct toggle_persisted [of stringify t s st]
    by simp
qed

theorem toggle_flips_light_dark_witness:
  "useTheme_currentTheme theme0 = DARK
   \<and> stored_preference (toggleTheme sample_stringify (theme0, storage0)) = LIGHT
   \<and> useTheme_currentTheme (fst (toggleTheme sample_stringify (theme0, storage0))) = LIGHT
   \<and> sample_stringify LIGHT = Inr (quoted LIGHT) \<and> accepts storage0 ''theme-mode'' (quoted LIGHT)
   \<and> items (snd (toggleTheme sample_stringify (theme0, storage0))) ''theme-mode''
       = Some (quoted LIGHT)"
proof -
  have d: "useTheme_currentTheme theme0 = DARK"
    by (simp add: theme0_def useTheme_currentTheme_def currentTheme_def)
  have s: "sample_stringify LIGHT = Inr (quoted LIGHT)"
    by (simp add: sample_stringify_def)
  have a: "accepts storage0 ''theme-mode'' (quoted LIGHT)"
    by (simp add: storage0_def quoted_def LIGHT_def)
  from toggle_flips_light_dark [of theme0 sample_stringify storage0 "quoted LIGHT"] d s a
  show ?thesis by simp
qed

section \<open>The persistent store\<close>

lemma setValue_success:
  assumes "ls_error (fst (useLocalStorage_setValue stringify k (Plain v) (h, st))) = None"
  shows "\<exists>s. stringify v = Inr s \<and> accepts st k s
           \<and> snd (useLocalStorage_setValue stringify k (Plain v) (h, st))
               = st\<lparr>items := (items st)(k \<mapsto> s)\<rparr>"
  using assms
  by (auto simp: useLocalStorage_setValue_def Let_def Storage_setItem_def
      split: sum.splits if_splits)

lemma read_after_write:
  assumes "s \<noteq> []" "parse s = Inr v"
  shows "fst (useLocalStorage_read parse k d (st\<lparr>items := (items st)(k \<mapsto> s)\<rparr>)) = v"
  using assms
  by (simp add: useLocalStorage_read_def useLocalStorage_effect_def Storage_getItem_def)

lemma read_keeps_storage: "snd (useLocalStorage_read parse k d st) = st"
  by (simp add: useLocalStorage_read_def useLocalStorage_effect_def Storage_getItem_def
      split: option.splits sum.splits)

lemma read_absent: "items st k = None \<Longrightarrow> fst (useLocalStorage_read parse k d st) = d"
  by (simp add: useLocalStorage_read_def useLocalStorage_effect_def Storage_getItem_def
      useLocalStorage_initial_def)

lemma read_unparsable:
  "items st k = Some s \<Longrightarrow> parse s = Inl e \<Longrightarrow> fst (useLocalStorage_read parse k d st) = d"
  by (simp add: useLocalStorage_read_def useLocalStorage_effect_def Storage_getItem_def
      useLocalStorage_initial_def)

lemma adapter_roundtrip:
  assumes "stringify v = Inr s" "s \<noteq> []" "parse s = Inr v"
    and "fst (setItem stringify st k v) = None"
  shows "fst (getItem parse (snd (setItem stringify st k v)) k) = Some v"
  using assms
  by (auto simp: setItem_def getItem_def Storage_setItem_def Storage_getItem_def
      split: if_splits)

lemma adapter_get_keeps_storage: "snd (getItem parse st k) = st"
  by (simp add: getItem_def split: option.splits sum.splits)

lemma adapter_get_absent: "items st k = None \<Longrightarrow> fst (getItem parse st k) = None"
  by (simp add: getItem_def Storage_getItem_def)

lemma adapter_get_unparsable:
  "items st k = Some s \<Longrightarrow> parse s = Inl e \<Longrightarrow> fst (getItem parse st k) = None"
  by (simp add: getItem_def Storage_getItem_def)

lemma setValue_accepted:
  assumes "stringify v = Inr s" "accepts st k s"
  shows "useLocalStorage_setValue stringify k (Plain v) (h, st)
           = (h\<lparr>ls_error := None, storedValue := v\<rparr>, st\<lparr>items := (items st)(k \<mapsto> s)\<rparr>)"
  using assms by (simp add: useLocalStorage_setValue_def Let_def Storage_setItem_def)

lemma setItem_accepted:
  assumes "stringify v = Inr s" "accepts st k s"
  shows "setItem stringify st k v = (None, st\<lparr>items := (items st)(k \<mapsto> s)\<rparr>)"
  using assms by (simp add: setItem_def Storage_setItem_def)

lemma setItem_refused:
  "stringify v = Inl e \<Longrightarrow> setItem stringify st k v = (Some e, st)"
  "stringify v = Inr s \<Longrightarrow> \<not> accepts st k s \<Longrightarrow>
     setItem stringify st k v = (Some ''QuotaExceededError'', st)"
  by (simp_all add: setItem_def Storage_setItem_def)

text \<open>
  Claim C9. For every key, every serializable value \<open>v\<close> and every default \<open>d\<close>: when
  the medium accepts the write, \<open>setValue\<close> of \<open>v\<close> reports no error and the adapter's
  \<open>setItem\<close> logs no failure, and after either of them reading the key returns \<open>v\<close>
  (the hook's read with default \<open>d\<close>, the adapter's \<open>getItem\<close>). Whenever a
  \<open>setValue\<close> reports no error, or a \<open>setItem\<close> logs no failure, the read that follows
  returns \<open>v\<close>, not \<open>d\<close>. When the entry is absent or does not parse, the read returns
  \<open>d\<close> (the adapter: \<open>null\<close>) and the storage is as it was.
\<close>

theorem set_then_get_roundtrip:
  assumes "serializable stringify parse v"
  shows "(ls_error (fst (useLocalStorage_setValue stringify k (Plain v) (h, st))) = None \<longrightarrow>
            fst (useLocalStorage_read parse k d
                   (snd (useLocalStorage_setValue stringify k (Plain v) (h, st)))) = v)
       \<and> (fst (setItem stringify st k v) = None \<longrightarrow>
            fst (getItem parse (snd (setItem stringify st k v)) k) = Some v)
       \<and> (items st k = None \<or> (\<exists>s e. items st k = Some s \<and> parse s = Inl e) \<longrightarrow>
            useLocalStorage_read parse k d st = (d, st)
            \<and> getItem parse st k = (None, st))
       \<and> ((\<exists>s. stringify v = Inr s \<and> accepts st k s) \<longrightarrow>
            ls_error (fst (useLocalStorage_setValue stringify k (Plain v) (h, st))) = None
            \<and> fst (useLocalStorage_read parse k d
                   (snd (useLocalStorage_setValue stringify k (Plain v) (h, st)))) = v
            \<and> fst (setItem stringify st k v) = None
            \<and> fst (getItem parse (snd (setItem stringify st k v)) k) = Some v)"
proof -
  from assms obtain s where s: "stringify v = Inr s" "s \<noteq> []" "parse s = Inr v"
    by (auto simp: serializable_def split: sum.splits)
  have 1: "fst (useLocalStorage_read parse k d
                   (snd (useLocalStorage_setValue stringify k (Plain v) (h, st)))) = v"
    if ok: "ls_error (fst (useLocalStorage_setValue stringify k (Plain v) (h, st))) = None"
  proof -
    from setValue_success [OF ok] s(1)
    have "snd (useLocalStorage_setValue stringify k (Plain v) (h, st))
            = st\<lparr>items := (items st)(k \<mapsto> s)\<rparr>" by auto
    then show ?thesis using read_after_write [of s parse v k d st] s(2,3) by simp
  qed
  have 2: "fst (getItem parse (snd (setItem stringify st k v)) k) = Some v"
    if "fst (setItem stringify st k v) = None"
    using s that by (rule adapter_roundtrip)
  have 3: "useLocalStorage_read parse k d st = (d, st) \<and> getItem parse st k = (None, st)"
    if "items st k = None \<or> (\<exists>s e. items st k = Some s \<and> parse s = Inl e)"
  proof -
    from that have "fst (useLocalStorage_read parse k d st) = d \<and> fst (getItem parse st k) = None"
    proof
      assume "items st k = None"
      then show ?thesis by (simp add: read_absent adapter_get_absent)
    next
      assume "\<exists>s e. items st k = Some s \<and> parse s = Inl e"
      then obtain s e where "items st k = Some s" "parse s = Inl e" by auto
      then show ?thesis by (simp add: read_unparsable adapter_get_unparsable)
    qed
    then show ?thesis
      using read_keeps_storage [of parse k d st] adapter_get_keeps_storage [of parse st k]
      by (simp add: prod_eq_iff)
  qed
  have 4: "ls_error (fst (useLocalStorage_setValue stringify k (Plain v) (h, st))) = None
            \<and> fst (useLocalStorage_read parse k d
                   (snd (useLocalStorage_setValue stringify k (Plain v) (h, st)))) = v
            \<and> fst (setItem stringify st k v) = None
            \<and> fst (getItem parse (snd (setItem stringify st k v)) k) = Some v"
    if "\<exists>s. stringify v = Inr s \<and> accepts st k s"
  proof -
    from that s(1) have acc: "accepts st k s" by auto
    have a: "ls_error (fst (useLocalStorage_setValue stringify k (Plain v) (h, st))) = None"
      using setValue_accepted [of stringify v s st k h] s(1) acc by simp
    have b: "fst (setItem stringify st k v) = None"
      using setItem_accepted [of stringify v s st k] s(1) acc by simp
    from a b 1 [OF a] 2 [OF b] show ?thesis by simp
  qed
  show ?thesis
    by (rule conjI, rule impI, erule 1, rule conjI, rule impI, erule 2,
        rule conjI, rule impI, erule 3, rule impI, erule 4)
qed

theorem set_then_get_roundtrip_witness:
  "serializable sample_stringify sample_parse DARK
   \<and> sample_stringify DARK = Inr (quoted DARK) \<and> accepts storage0 ''theme-mode'' (quoted DARK)
   \<and> ls_error (fst (useLocalStorage_setValue sample_stringify ''theme-mode'' (Plain DARK)
        (useLocalStorage_initial SYSTEM, storage0))) = None
   \<and> fst (useLocalStorage_read sample_parse ''theme-mode'' SYSTEM
        (snd (useLocalStorage_setValue sample_stringify ''theme-mode'' (Plain DARK)
           (useLocalStorage_initial SYSTEM, storage0)))) = DARK
   \<and> setItem sample_stringify storage0 ''theme-mode'' DARK
       = (None, storage0\<lparr>items := [''theme-mode'' \<mapsto> quoted DARK]\<rparr>)
   \<and> fst (getItem sample_parse (snd (setItem sample_stringify storage0 ''theme-mode'' DARK))
        ''theme-mode'') = Some DARK
   \<and> items storage0 ''theme-mode'' = None
   \<and> useLocalStorage_read sample_parse ''theme-mode'' SYSTEM storage0 = (SYSTEM, storage0)
   \<and> getItem sample_parse storage0 ''theme-mode'' = (None, storage0)"
proof -
  have q: "quoted DARK \<noteq> quoted LIGHT"
    by (simp add: quoted_def DARK_def LIGHT_def)
  have ser: "serializable sample_stringify sample_parse DARK"
    using q by (simp add: serializable_def sample_stringify_def sample_parse_def quoted_def)
  have st: "sample_stringify DARK = Inr (quoted DARK)"
    by (simp add: sample_stringify_def)
  have acc: "accepts storage0 ''theme-mode'' (quoted DARK)"
    by (simp add: storage0_def quoted_def DARK_def)
  have ab: "items storage0 ''theme-mode'' = None"
    by (simp add: storage0_def)
  have w: "setItem sample_stringify storage0 ''theme-mode'' DARK
       = (None, storage0\<lparr>items := [''theme-mode'' \<mapsto> quoted DARK]\<rparr>)"
    using setItem_accepted [of sample_stringify DARK "quoted DARK" storage0 "''theme-mode''"]
      st acc by (simp add: storage0_def)
  from set_then_get_roundtrip [OF ser, of "''theme-mode''" "useLocalStorage_initial SYSTEM"
      storage0 SYSTEM] ser st acc ab w
  show ?thesis by auto
qed

text \<open>
  A write the medium refuses is logged and leaves the storage as it was, so the read
  that follows still finds the entry absent.
\<close>

lemma refused_write_example:
  "setItem sample_stringify (storage0\<lparr>accepts := (\<lambda>k s. False)\<rparr>) ''theme-mode'' DARK
     = (Some ''QuotaExceededError'', storage0\<lparr>accepts := (\<lambda>k s. False)\<rparr>)"
  by (simp add: setItem_def Storage_setItem_def sample_stringify_def storage0_def)

text \<open>An entry that does not parse: the read returns the default.\<close>

lemma unparsable_entry_example:
  "useLocalStorage_read sample_parse ''theme-mode'' SYSTEM storage_bad = (SYSTEM, storage_bad)"
  by (simp add: useLocalStorage_read_def useLocalStorage_effect_def Storage_getItem_def
      storage_bad_def storage0_def sample_parse_def quoted_def LIGHT_def DARK_def SYSTEM_def
      useLocalStorage_initial_def)

end
